theory Spec2Isabelle
  imports Main "HOL-Library.Word" "HOL-Library.Sublist"
begin

section \<open>Errors and JavaScript values\<close>

text \<open>
  Every \<open>throw\<close> of the sources is a value of this type; a function that can throw returns
  \<open>error + 'a\<close> with \<open>Inl\<close> for the exception.
\<close>

datatype error =
    RangeError
  | AssertionError string
  | SyntaxError
  | ReferenceError string
  | Error string
  | PostgresError string string
  | HermesConsumerAlreadyTakenError string string

text \<open>
  A JavaScript Number that holds an integer, \<open>NaN\<close>, or the negative zero \<open>parseInt\<close>
  gives for the text \<open>-0\<close>. Integers below \<open>2 ^ 53\<close> are exact as doubles; the readers
  below only produce Numbers from at most eight characters or eight bytes.
\<close>

datatype jsnumber = NaN | NegZero | Num int

text \<open>A JavaScript string is its sequence of UTF-16 code units.\<close>

type_synonym jsstring = "nat list"

datatype ColumnValue = JsNumber jsnumber | JsBigInt int | JsString jsstring

section \<open>Node.js Buffer reads\<close>

type_synonym byte = "8 word"
type_synonym Buffer = "byte list"

definition readInt8 :: "Buffer \<Rightarrow> nat \<Rightarrow> error + int" where
  "readInt8 buffer off =
     (if off < length buffer then Inr (sint (buffer ! off)) else Inl RangeError)"

fun be_nat :: "byte list \<Rightarrow> nat" where
  "be_nat bs = foldl (\<lambda>acc b. acc * 256 + unat b) 0 bs"

text \<open>\<open>readUInt8\<close>, \<open>readUInt16BE\<close>, \<open>readUInt32BE\<close> and \<open>readBigUInt64BE\<close> for
  \<open>n = 1, 2, 4, 8\<close>: the big-endian value of \<open>n\<close> bytes, or a RangeError when the
  read leaves the buffer.\<close>

definition readUIntBE :: "nat \<Rightarrow> Buffer \<Rightarrow> nat \<Rightarrow> error + nat" where
  "readUIntBE n buffer off =
     (if off + n \<le> length buffer then Inr (be_nat (take n (drop off buffer)))
      else Inl RangeError)"

definition readUInt32BE :: "Buffer \<Rightarrow> nat \<Rightarrow> error + nat" where
  "readUInt32BE = readUIntBE 4"

text \<open>\<open>buffer.subarray(start, end)\<close> clamps both indices to the buffer and is empty when
  \<open>end \<le> start\<close>; it never throws.\<close>

definition subarray :: "Buffer \<Rightarrow> nat \<Rightarrow> nat \<Rightarrow> Buffer" where
  "subarray buffer start end = drop start (take end buffer)"

text \<open>\<open>String.fromCharCode\<close> takes its argument modulo \<open>2 ^ 16\<close>.\<close>

definition fromCharCode :: "int \<Rightarrow> nat" where
  "fromCharCode c = nat (c mod 65536)"

subsection \<open>\<open>toString('utf-8')\<close>\<close>

definition is_cont :: "byte \<Rightarrow> bool" where
  "is_cont b = (0x80 \<le> b \<and> b \<le> 0xBF)"

definition low6 :: "byte \<Rightarrow> nat" where
  "low6 b = unat b mod 64"

text \<open>The range allowed for the second byte of a three- or four-byte sequence.\<close>

definition second_ok :: "byte \<Rightarrow> byte \<Rightarrow> bool" where
  "second_ok b0 b1 =
     (if b0 = 0xE0 then 0xA0 \<le> b1 \<and> b1 \<le> 0xBF
      else if b0 = 0xED then 0x80 \<le> b1 \<and> b1 \<le> 0x9F
      else if b0 = 0xF0 then 0x90 \<le> b1 \<and> b1 \<le> 0xBF
      else if b0 = 0xF4 then 0x80 \<le> b1 \<and> b1 \<le> 0x8F
      else is_cont b1)"

text \<open>A code point as UTF-16 code units: itself, or a surrogate pair.\<close>

definition utf16 :: "nat \<Rightarrow> jsstring" where
  "utf16 cp =
     (if cp < 0x10000 then [cp]
      else [0xD800 + (cp - 0x10000) div 1024, 0xDC00 + (cp - 0x10000) mod 1024])"

text \<open>
  UTF-8 decoding with replacement: each maximal ill-formed prefix becomes one U+FFFD and
  decoding resumes at the byte that broke the sequence.
\<close>

fun toString_utf8 :: "Buffer \<Rightarrow> jsstring" where
  "toString_utf8 [] = []"
| "toString_utf8 (b0 # bs) =
     (if b0 < 0x80 then unat b0 # toString_utf8 bs
      else if 0xC2 \<le> b0 \<and> b0 \<le> 0xDF then
        (case bs of
           [] \<Rightarrow> [0xFFFD]
         | b1 # bs1 \<Rightarrow>
             if is_cont b1 then ((unat b0 mod 32) * 64 + low6 b1) # toString_utf8 bs1
             else 0xFFFD # toString_utf8 bs)
      else if 0xE0 \<le> b0 \<and> b0 \<le> 0xEF then
        (case bs of
           [] \<Rightarrow> [0xFFFD]
         | b1 # bs1 \<Rightarrow>
             if second_ok b0 b1 then
               (case bs1 of
                  [] \<Rightarrow> [0xFFFD]
                | b2 # bs2 \<Rightarrow>
                    if is_cont b2
                    then ((unat b0 mod 16) * 4096 + low6 b1 * 64 + low6 b2) # toString_utf8 bs2
                    else 0xFFFD # toString_utf8 bs1)
             else 0xFFFD # toString_utf8 bs)
      else if 0xF0 \<le> b0 \<and> b0 \<le> 0xF4 then
        (case bs of
           [] \<Rightarrow> [0xFFFD]
         | b1 # bs1 \<Rightarrow>
             if second_ok b0 b1 then
               (case bs1 of
                  [] \<Rightarrow> [0xFFFD]
                | b2 # bs2 \<Rightarrow>
                    if is_cont b2 then
                      (case bs2 of
                         [] \<Rightarrow> [0xFFFD]
                       | b3 # bs3 \<Rightarrow>
                           if is_cont b3
                           then utf16 ((unat b0 mod 8) * 262144 + low6 b1 * 4096
                                       + low6 b2 * 64 + low6 b3) @ toString_utf8 bs3
                           else 0xFFFD # toString_utf8 bs2)
                    else 0xFFFD # toString_utf8 bs1)
             else 0xFFFD # toString_utf8 bs)
      else 0xFFFD # toString_utf8 bs)"

subsection \<open>\<open>parseInt(str, 10)\<close> and \<open>BigInt(str)\<close>\<close>

text \<open>The code units ECMAScript trims as white space or line terminators.\<close>

definition is_ws :: "nat \<Rightarrow> bool" where
  "is_ws c =
     (c \<in> {0x09, 0x0A, 0x0B, 0x0C, 0x0D, 0x20, 0xA0, 0x1680, 0x2028, 0x2029, 0x202F,
            0x205F, 0x3000, 0xFEFF} \<or> (0x2000 \<le> c \<and> c \<le> 0x200A))"

text \<open>The value of a digit character in a radix up to 16, if it is one.\<close>

definition digit_val :: "nat \<Rightarrow> nat \<Rightarrow> nat option" where
  "digit_val radix c =
     (let v = (if 0x30 \<le> c \<and> c \<le> 0x39 then Some (c - 0x30)
               else if 0x61 \<le> c \<and> c \<le> 0x66 then Some (c - 0x61 + 10)
               else if 0x41 \<le> c \<and> c \<le> 0x46 then Some (c - 0x41 + 10)
               else None)
      in case v of None \<Rightarrow> None | Some d \<Rightarrow> if d < radix then Some d else None)"

definition is_digit :: "nat \<Rightarrow> nat \<Rightarrow> bool" where
  "is_digit radix c = (digit_val radix c \<noteq> None)"

definition digits_value :: "nat \<Rightarrow> jsstring \<Rightarrow> nat" where
  "digits_value radix ds =
     foldl (\<lambda>acc c. acc * radix + (case digit_val radix c of None \<Rightarrow> 0 | Some d \<Rightarrow> d)) 0 ds"

text \<open>
  \<open>parseInt(str, 10)\<close>: leading white space is dropped, then an optional sign, then the
  longest run of decimal digits is read; no digit gives \<open>NaN\<close>, and what follows the digits
  is ignored.
\<close>

definition parseInt10 :: "jsstring \<Rightarrow> jsnumber" where
  "parseInt10 str =
     (let s = dropWhile is_ws str;
          neg = (s \<noteq> [] \<and> hd s = 0x2D);
          s1 = (if s \<noteq> [] \<and> (hd s = 0x2B \<or> hd s = 0x2D) then tl s else s);
          z = takeWhile (is_digit 10) s1
      in if z = [] then NaN
         else if digits_value 10 z = 0 then (if neg then NegZero else Num 0)
         else Num (if neg then - int (digits_value 10 z) else int (digits_value 10 z)))"

text \<open>
  \<open>BigInt(str)\<close>: white space is trimmed on both sides; the empty text is \<open>0n\<close>; otherwise
  the whole text must be a signed decimal literal or an unsigned literal with prefix
  \<open>0x\<close>, \<open>0o\<close> or \<open>0b\<close>, and anything else is a SyntaxError.
\<close>

definition trim :: "jsstring \<Rightarrow> jsstring" where
  "trim s = rev (dropWhile is_ws (rev (dropWhile is_ws s)))"

definition all_digits :: "nat \<Rightarrow> jsstring \<Rightarrow> nat option" where
  "all_digits radix ds =
     (if ds \<noteq> [] \<and> list_all (is_digit radix) ds then Some (digits_value radix ds) else None)"

definition nondecimal_literal :: "jsstring \<Rightarrow> nat option" where
  "nondecimal_literal t =
     (case t of
        c0 # c1 # ds \<Rightarrow>
          if c0 \<noteq> 0x30 then None
          else if c1 = 0x78 \<or> c1 = 0x58 then all_digits 16 ds
          else if c1 = 0x6F \<or> c1 = 0x4F then all_digits 8 ds
          else if c1 = 0x62 \<or> c1 = 0x42 then all_digits 2 ds
          else None
      | _ \<Rightarrow> None)"

definition signed_decimal_literal :: "jsstring \<Rightarrow> int option" where
  "signed_decimal_literal t =
     (case t of
        [] \<Rightarrow> None
      | c # ds \<Rightarrow>
          if c = 0x2D then map_option (\<lambda>n. - int n) (all_digits 10 ds)
          else if c = 0x2B then map_option int (all_digits 10 ds)
          else map_option int (all_digits 10 t))"

definition BigInt :: "jsstring \<Rightarrow> error + int" where
  "BigInt str =
     (let t = trim str in
      if t = [] then Inr 0
      else case nondecimal_literal t of
             Some n \<Rightarrow> Inr (int n)
           | None \<Rightarrow> (case signed_decimal_literal t of
                         Some i \<Rightarrow> Inr i
                       | None \<Rightarrow> Inl SyntaxError))"

section \<open>Tuple decoding of an Insert message (processInsertMessage.ts)\<close>

text \<open>
  Modelled from the spec: the cursor \<open>Offset\<close> of \<open>common/offset.js\<close> is not among the
  sources. The readers use it as a mutable byte position: \<open>value()\<close> reads it, and
  \<open>addInt8()\<close>, \<open>addInt32()\<close> and \<open>add(n)\<close> advance it by 1, 4 and \<open>n\<close> bytes and return
  the advanced position, which is what makes the readers follow the tuple layout of the
  spec (format byte, big-endian 32-bit length, value bytes).
\<close>

type_synonym Offset = nat

definition addInt8 :: "Offset \<Rightarrow> Offset" where
  "addInt8 pos = pos + 1"

definition addInt32 :: "Offset \<Rightarrow> Offset" where
  "addInt32 pos = pos + 4"

definition add :: "Offset \<Rightarrow> nat \<Rightarrow> Offset" where
  "add pos n = pos + n"

text \<open>\<open>assert(cond, message)\<close> of the core package throws an AssertionError when \<open>cond\<close>
  is falsy.\<close>

definition assert :: "bool \<Rightarrow> string \<Rightarrow> error + unit" where
  "assert cond msg = (if cond then Inr () else Inl (AssertionError msg))"

text \<open>Sequencing of computations that may throw.\<close>

definition bind :: "error + 'a \<Rightarrow> ('a \<Rightarrow> error + 'b) \<Rightarrow> error + 'b" where
  "bind m f = (case m of Inl e \<Rightarrow> Inl e | Inr x \<Rightarrow> f x)"

text \<open>The code unit of the letter \<open>t\<close>.\<close>

abbreviation char_t :: nat where
  "char_t \<equiv> 0x74"

definition readUInt :: "Buffer \<Rightarrow> Offset \<Rightarrow> error + (ColumnValue \<times> Offset)" where
  "readUInt buffer pos =
     bind (readInt8 buffer pos) (\<lambda>c.
     let columnType = fromCharCode c; pos1 = addInt8 pos in
     bind (readUInt32BE buffer pos1) (\<lambda>columnLength.
     bind (assert (columnType = char_t) ''readUInt.columnType'') (\<lambda>_.
     bind (assert (columnLength \<in> {1, 2, 4, 8}) ''readUInt.columnLength'') (\<lambda>_.
     let pos2 = addInt32 pos1 in
     bind (readUIntBE columnLength buffer pos2) (\<lambda>v.
     Inr (if columnLength = 8 then JsBigInt (int v) else JsNumber (Num (int v)),
          add pos2 columnLength))))))"

definition readBigInt :: "Buffer \<Rightarrow> Offset \<Rightarrow> error + (ColumnValue \<times> Offset)" where
  "readBigInt buffer pos =
     bind (readInt8 buffer pos) (\<lambda>c.
     let columnType = fromCharCode c; pos1 = addInt8 pos in
     bind (readUInt32BE buffer pos1) (\<lambda>columnLength.
     bind (assert (columnType = char_t) ''readUInt.columnType'') (\<lambda>_.
     let pos2 = addInt32 pos1;
         strValue = toString_utf8 (subarray buffer pos2 (pos2 + columnLength)) in
     bind (if columnLength > 8 then bind (BigInt strValue) (\<lambda>i. Inr (JsBigInt i))
           else Inr (JsNumber (parseInt10 strValue))) (\<lambda>v.
     Inr (v, add pos2 columnLength)))))"

definition readText :: "Buffer \<Rightarrow> Offset \<Rightarrow> error + (ColumnValue \<times> Offset)" where
  "readText buffer pos =
     bind (readInt8 buffer pos) (\<lambda>c.
     let columnType = fromCharCode c; pos1 = addInt8 pos in
     bind (readUInt32BE buffer pos1) (\<lambda>columnLength.
     bind (assert (columnType = char_t) ''readText.columnType'') (\<lambda>_.
     let pos2 = addInt32 pos1; pos3 = add pos2 columnLength in
     Inr (JsString (toString_utf8 (subarray buffer pos2 pos3)), pos3))))"

definition readJsonb :: "Buffer \<Rightarrow> Offset \<Rightarrow> error + (ColumnValue \<times> Offset)" where
  "readJsonb buffer pos =
     bind (readInt8 buffer pos) (\<lambda>c.
     let columnType = fromCharCode c; pos1 = addInt8 pos in
     bind (readUInt32BE buffer pos1) (\<lambda>columnLength.
     bind (assert (columnType = char_t) ''readText.readJsonb'') (\<lambda>_.
     let pos2 = addInt32 pos1; pos3 = add pos2 columnLength in
     Inr (JsString (toString_utf8 (subarray buffer pos2 pos3)), pos3))))"

text \<open>The column types of the column configuration: \<open>uint\<close>, \<open>bigint\<close>, \<open>text\<close>, \<open>jsonb\<close>.\<close>

datatype ColumnType = ct_uint | ct_bigint | ct_text | ct_jsonb

fun columnReaders :: "ColumnType \<Rightarrow> Buffer \<Rightarrow> Offset \<Rightarrow> error + (ColumnValue \<times> Offset)" where
  "columnReaders ct_uint = readUInt"
| "columnReaders ct_bigint = readBigInt"
| "columnReaders ct_text = readText"
| "columnReaders ct_jsonb = readJsonb"

text \<open>
  \<open>readTuple\<close>: the readers of the configured columns run in the order of the column
  configuration, each starting where the previous one stopped; the result binds each
  column name to its value.
\<close>

fun readTuple ::
  "(string \<times> ColumnType) list \<Rightarrow> Offset \<Rightarrow> Buffer \<Rightarrow> error + ((string \<times> ColumnValue) list \<times> Offset)"
where
  "readTuple [] pos tuplesBuffer = Inr ([], pos)"
| "readTuple ((columnName, columnType) # readers) pos tuplesBuffer =
     bind (columnReaders columnType tuplesBuffer pos) (\<lambda>(v, pos').
     bind (readTuple readers pos' tuplesBuffer) (\<lambda>(result, pos'').
     Inr ((columnName, v) # result, pos'')))"

subsection \<open>Well-formed columns\<close>

text \<open>
  The statements about the readers are made on columns as Postgres sends them: a tag
  byte, the length of the value as a big-endian 32-bit integer, and the value bytes. A
  \<open>bigint\<close> value in text format is the decimal text of the integer, a minus sign
  first when it is negative.
\<close>

fun dec_digits :: "nat \<Rightarrow> byte list" where
  "dec_digits n =
     (if n < 10 then [of_nat (48 + n)] else dec_digits (n div 10) @ [of_nat (48 + n mod 10)])"

definition int8_text :: "int \<Rightarrow> byte list" where
  "int8_text i = (if i < 0 then 0x2D # dec_digits (nat (- i)) else dec_digits (nat i))"

definition be32 :: "nat \<Rightarrow> byte list" where
  "be32 n = [of_nat (n div 16777216), of_nat (n div 65536), of_nat (n div 256), of_nat n]"

declare dec_digits.simps [simp del]

definition column :: "byte \<Rightarrow> Buffer \<Rightarrow> Buffer" where
  "column tag val = tag # be32 (length val) @ val"


section \<open>The auxiliary polling consumer (AsyncOutboxConsumer.ts)\<close>

text \<open>A row of the \<open>asyncOutbox\<close> table. \<open>data\<close> is the JSON text of the message,
  \<open>failsCount\<close> is nullable (the code reads it through \<open>COALESCE\<close> and \<open>|| 0\<close>), and
  the time stamps are points of the database clock.\<close>

record AsyncOutboxRow =
  position :: int
  consumerName :: string
  messageId :: string
  messageType :: string
  data :: string
  delivered :: bool
  failsCount :: "int option"
  addedAt :: nat
  sentAt :: "nat option"

text \<open>\<open>HermesAsyncMessageEnvelope\<close>, what the publish callback receives.\<close>

record HermesAsyncMessageEnvelope =
  env_position :: int
  env_messageId :: string
  env_messageType :: string
  redeliveryCount :: int
  env_message :: string

text \<open>
  What lies outside the consumer: the publish callback of the parameters, the database
  and the clock. The callback is any function of its argument and of the state \<open>'w\<close> of
  the outside world; it answers \<open>True\<close> when it returns normally and \<open>False\<close> when it
  throws. \<open>sql_ok\<close> says whether the next SQL statement succeeds, \<open>now\<close> is the
  database's \<open>NOW()\<close>.
\<close>

record 'w AsyncEnv =
  publish :: "HermesAsyncMessageEnvelope \<Rightarrow> 'w \<Rightarrow> bool \<times> 'w"
  sql_ok :: "'w \<Rightarrow> bool \<times> 'w"
  now :: "'w \<Rightarrow> nat"

text \<open>
  The consumer object (\<open>_started\<close>, \<open>_isProcessing\<close>, \<open>_intervalId\<close>), the interval
  timers Node.js has registered (identifier and period in milliseconds), the table, and
  the outside world. \<open>calls\<close> records each invocation of the publish callback, oldest
  first: the envelope, whether the callback returned normally, and the outside world as
  the callback left it. The statements below speak about this record; the code never
  reads it.
\<close>

record 'w AsyncOutboxConsumer =
  started :: bool
  isProcessing :: bool
  intervalId :: "nat option"
  intervals :: "(nat \<times> nat) list"
  asyncOutbox :: "AsyncOutboxRow list"
  calls :: "(HermesAsyncMessageEnvelope \<times> bool \<times> 'w) list"
  world :: 'w

text \<open>The constructor: \<open>_params.checkInterval || Duration.ofSeconds(15)\<close>, in
  milliseconds.\<close>

definition checkInterval :: "nat option \<Rightarrow> nat" where
  "checkInterval given = (case given of None \<Rightarrow> 15 * 1000 | Some d \<Rightarrow> d)"

text \<open>\<open>SELECT * FROM "asyncOutbox" WHERE delivered = false ORDER BY "addedAt" ASC LIMIT 10\<close>;
  rows with equal \<open>addedAt\<close> keep their order in the table.\<close>

definition pendingMessages :: "AsyncOutboxRow list \<Rightarrow> AsyncOutboxRow list" where
  "pendingMessages rows = take 10 (sort_key addedAt (filter (\<lambda>r. delivered r = False) rows))"

text \<open>\<open>UPDATE "asyncOutbox" SET "delivered" = true, "sentAt" = NOW() WHERE "position" = p\<close>\<close>

definition markDelivered :: "int \<Rightarrow> nat \<Rightarrow> AsyncOutboxRow list \<Rightarrow> AsyncOutboxRow list" where
  "markDelivered p t rows =
     map (\<lambda>r. if position r = p then r\<lparr>delivered := True, sentAt := Some t\<rparr> else r) rows"

text \<open>\<open>UPDATE "asyncOutbox" SET "failsCount" = COALESCE("failsCount", 0) + 1 WHERE "position" = p\<close>\<close>

definition incFailsCount :: "int \<Rightarrow> AsyncOutboxRow list \<Rightarrow> AsyncOutboxRow list" where
  "incFailsCount p rows =
     map (\<lambda>r. if position r = p
               then r\<lparr>failsCount := Some ((case failsCount r of None \<Rightarrow> 0 | Some n \<Rightarrow> n) + 1)\<rparr>
               else r) rows"

text \<open>The envelope of a selected row; \<open>message.failsCount || 0\<close> is 0 for NULL.\<close>

definition toEnvelope :: "AsyncOutboxRow \<Rightarrow> HermesAsyncMessageEnvelope" where
  "toEnvelope message =
     \<lparr> env_position = position message,
       env_messageId = messageId message,
       env_messageType = messageType message,
       redeliveryCount = (case failsCount message of None \<Rightarrow> 0 | Some n \<Rightarrow> n),
       env_message = data message \<rparr>"

text \<open>
  The body of the \<open>for\<close> loop of \<open>_processUndeliveredMessages\<close> over the selected rows.
  The \<open>try\<close> block holds the callback and the first \<open>UPDATE\<close>, so a failure of either
  runs the \<open>catch\<close> block; a failure of the \<open>UPDATE\<close> in the \<open>catch\<close> block leaves the
  loop with that error.
\<close>

fun processMessages ::
  "'w AsyncEnv \<Rightarrow> AsyncOutboxRow list \<Rightarrow> 'w AsyncOutboxConsumer
     \<Rightarrow> error option \<times> 'w AsyncOutboxConsumer"
where
  "processMessages env [] s = (None, s)"
| "processMessages env (message # rest) s =
     (let (returned, w1) = publish env (toEnvelope message) (world s);
          s1 = s\<lparr>calls := calls s @ [(toEnvelope message, returned, w1)], world := w1\<rparr>;
          (ok1, w2) = (if returned then sql_ok env w1 else (False, w1))
      in if returned \<and> ok1
         then processMessages env rest
                (s1\<lparr>asyncOutbox := markDelivered (position message) (now env w2) (asyncOutbox s1),
                    world := w2\<rparr>)
         else
           (let (ok2, w3) = sql_ok env w2
            in if ok2
               then processMessages env rest
                      (s1\<lparr>asyncOutbox := incFailsCount (position message) (asyncOutbox s1),
                          world := w3\<rparr>)
               else (Some (Error ''UPDATE asyncOutbox''), s1\<lparr>world := w3\<rparr>)))"

text \<open>\<open>_processUndeliveredMessages\<close>: a call that finds \<open>_isProcessing\<close> set returns at
  once; otherwise the flag is set for the whole cycle and reset in \<open>finally\<close>.\<close>

definition processUndeliveredMessages ::
  "'w AsyncEnv \<Rightarrow> 'w AsyncOutboxConsumer \<Rightarrow> error option \<times> 'w AsyncOutboxConsumer"
where
  "processUndeliveredMessages env s =
     (if isProcessing s then (None, s)
      else
        (let s1 = s\<lparr>isProcessing := True\<rparr>;
             (ok, w1) = sql_ok env (world s1);
             (r, s2) = (if ok then processMessages env (pendingMessages (asyncOutbox s1))
                                     (s1\<lparr>world := w1\<rparr>)
                        else (Some (Error ''SELECT asyncOutbox''), s1\<lparr>world := w1\<rparr>))
         in (r, s2\<lparr>isProcessing := False\<rparr>)))"

text \<open>Node.js timers. \<open>setInterval\<close> registers a new interval under an identifier that is
  not in use; \<open>clearInterval\<close> removes it.\<close>

definition setInterval :: "nat \<Rightarrow> 'w AsyncOutboxConsumer \<Rightarrow> nat \<times> 'w AsyncOutboxConsumer" where
  "setInterval ms s =
     (let i = Suc (fold max (map fst (intervals s)) 0)
      in (i, s\<lparr>intervals := intervals s @ [(i, ms)]\<rparr>))"

definition clearInterval :: "nat \<Rightarrow> 'w AsyncOutboxConsumer \<Rightarrow> 'w AsyncOutboxConsumer" where
  "clearInterval i s = s\<lparr>intervals := filter (\<lambda>t. fst t \<noteq> i) (intervals s)\<rparr>"

text \<open>\<open>_startPolling\<close>\<close>

definition startPolling :: "nat option \<Rightarrow> 'w AsyncOutboxConsumer \<Rightarrow> 'w AsyncOutboxConsumer" where
  "startPolling given s =
     (let (i, s1) = setInterval (checkInterval given) s in s1\<lparr>intervalId := Some i\<rparr>)"

text \<open>The interval's callback: one cycle, whose error is caught and dropped. It runs when
  the timer \<open>i\<close> fires, which only a registered timer does.\<close>

definition fire :: "'w AsyncEnv \<Rightarrow> nat \<Rightarrow> 'w AsyncOutboxConsumer \<Rightarrow> 'w AsyncOutboxConsumer" where
  "fire env i s =
     (if i \<in> fst ` set (intervals s) then snd (processUndeliveredMessages env s) else s)"

text \<open>The method \<open>stop()\<close>.\<close>

definition async_stop :: "'w AsyncOutboxConsumer \<Rightarrow> 'w AsyncOutboxConsumer" where
  "async_stop s =
     (let s1 = (case intervalId s of
                  Some i \<Rightarrow> (clearInterval i s)\<lparr>intervalId := None\<rparr>
                | None \<Rightarrow> s)
      in s1\<lparr>started := False\<rparr>)"

text \<open>
  The handle \<open>start()\<close> returns is \<open>() => Promise.resolve(stop())\<close>. Its \<open>stop\<close> is a free
  identifier: the module declares and imports no value of that name (the import \<open>Stop\<close>
  is a type), and the method would be \<open>this.stop\<close>. The call therefore goes to whatever
  the global scope binds to \<open>stop\<close>, here \<open>global_stop\<close>: \<open>None\<close> in Node.js, where the
  call throws a ReferenceError, or a function of the host, which sees the outside world
  and none of the consumer's private fields.
\<close>

definition stop_handle ::
  "('w \<Rightarrow> error option \<times> 'w) option \<Rightarrow> 'w AsyncOutboxConsumer
     \<Rightarrow> error option \<times> 'w AsyncOutboxConsumer"
where
  "stop_handle global_stop s =
     (case global_stop of
        None \<Rightarrow> (Some (ReferenceError ''stop is not defined''), s)
      | Some f \<Rightarrow> (let (r, w') = f (world s) in (r, s\<lparr>world := w'\<rparr>)))"

text \<open>\<open>start()\<close>: the error of a second start, or the consumer with its timer running.
  The handle it returns is \<open>stop_handle\<close>.\<close>

definition async_start ::
  "nat option \<Rightarrow> 'w AsyncOutboxConsumer \<Rightarrow> error + 'w AsyncOutboxConsumer"
where
  "async_start given s =
     (if started s then Inl (Error ''AsyncOutboxConsumer is already started'')
      else Inr (startPolling given (s\<lparr>started := True\<rparr>)))"

text \<open>
  A committed \<open>INSERT INTO "asyncOutbox"\<close> of \<open>_publishOne\<close>: the table assigns
  the next position of its sequence; \<open>delivered\<close> starts false, \<open>sentAt\<close> empty and the
  failure count at its default, and \<open>addedAt\<close> is the time of the insertion.
\<close>

definition insertAsync ::
  "string \<Rightarrow> string \<Rightarrow> string \<Rightarrow> string \<Rightarrow> nat \<Rightarrow> AsyncOutboxRow list \<Rightarrow> AsyncOutboxRow list"
where
  "insertAsync consumer mid mtype payload t rows =
     rows @ [\<lparr> position = fold max (map position rows) 0 + 1,
                consumerName = consumer, messageId = mid, messageType = mtype, data = payload,
                delivered = False, failsCount = Some 0, addedAt = t, sentAt = None \<rparr>]"

subsection \<open>Notions for the statements about the polling consumer\<close>

text \<open>The row of a position, the table's key.\<close>

definition rowAt :: "int \<Rightarrow> AsyncOutboxRow list \<Rightarrow> AsyncOutboxRow option" where
  "rowAt p rows = find (\<lambda>r. position r = p) rows"

text \<open>Every SQL statement of the run succeeds.\<close>

definition sql_reliable :: "'w AsyncEnv \<Rightarrow> bool" where
  "sql_reliable env = (\<forall>w. fst (sql_ok env w))"


text \<open>The failure count of a row as a number, \<open>NULL\<close> counting as 0.\<close>

definition failures :: "AsyncOutboxRow \<Rightarrow> int" where
  "failures r = (case failsCount r of None \<Rightarrow> 0 | Some n \<Rightarrow> n)"

text \<open>How often the callback has thrown for the row of position \<open>p\<close> in a record of calls.\<close>

definition thrown :: "int \<Rightarrow> (HermesAsyncMessageEnvelope \<times> bool \<times> 'w) list \<Rightarrow> nat" where
  "thrown p log = length (filter (\<lambda>(e, returned, w). env_position e = p \<and> returned = False) log)"

text \<open>Every call of the record carried, as its redelivery count, the number of earlier calls
  for the same row in which the callback threw.\<close>

definition counts_redeliveries :: "(HermesAsyncMessageEnvelope \<times> bool \<times> 'w) list \<Rightarrow> bool" where
  "counts_redeliveries log =
     (\<forall>j < length log. redeliveryCount (fst (log ! j))
                        = int (thrown (env_position (fst (log ! j))) (take j log)))"

text \<open>The failure count the table holds for each row is the number of calls for that row in
  which the callback has thrown so far.\<close>

definition failures_persisted :: "'w AsyncOutboxConsumer \<Rightarrow> bool" where
  "failures_persisted s =
     (\<forall>r \<in> set (asyncOutbox s). failures r = int (thrown (position r) (calls s)))"

text \<open>A run of the consumer: polling cycles, and insertions committed in between by
  \<open>send\<close>.\<close>

datatype AsyncAction =
    Cycle
  | Insert string string string string nat

fun async_step :: "'w AsyncEnv \<Rightarrow> AsyncAction \<Rightarrow> 'w AsyncOutboxConsumer \<Rightarrow> 'w AsyncOutboxConsumer" where
  "async_step env Cycle s = snd (processUndeliveredMessages env s)"
| "async_step env (Insert consumer mid mtype payload t) s =
     s\<lparr>asyncOutbox := insertAsync consumer mid mtype payload t (asyncOutbox s)\<rparr>"

definition async_run ::
  "'w AsyncEnv \<Rightarrow> AsyncAction list \<Rightarrow> 'w AsyncOutboxConsumer \<Rightarrow> 'w AsyncOutboxConsumer" where
  "async_run env actions s = fold (async_step env) actions s"

text \<open>A consumer that has not polled yet, over an empty table.\<close>

definition async_initial :: "'w \<Rightarrow> 'w AsyncOutboxConsumer" where
  "async_initial w =
     \<lparr> started = False, isProcessing = False, intervalId = None, intervals = [],
       asyncOutbox = [], calls = [], world = w \<rparr>"

text \<open>
  An outside world for the examples: its state counts the calls of the callback, the
  callback throws on its first \<open>k\<close> calls and returns normally afterwards, every SQL
  statement succeeds and the clock shows 1000.
\<close>

definition failing_first :: "nat \<Rightarrow> nat AsyncEnv" where
  "failing_first k =
     \<lparr> publish = (\<lambda>e w. (k \<le> w, Suc w)), sql_ok = (\<lambda>w. (True, w)), now = (\<lambda>w. 1000) \<rparr>"

text \<open>What holds between the actions of a run: positions are a key of the table, the
  persisted failure counts and the redelivery counts of the calls are the numbers of
  failed calls, every call was for a row of the table, and no cycle is in progress.\<close>

definition async_invariant :: "'w AsyncOutboxConsumer \<Rightarrow> bool" where
  "async_invariant s =
     (distinct (map position (asyncOutbox s))
    \<and> failures_persisted s
    \<and> counts_redeliveries (calls s)
    \<and> list_all (\<lambda>c. env_position (fst c) \<in> position ` set (asyncOutbox s)) (calls s)
    \<and> isProcessing s = False)"

text \<open>A table for the examples: two undelivered rows, the younger one with three failures
  so far, and a delivered row.\<close>

definition polling_example :: "nat AsyncOutboxConsumer" where
  "polling_example =
     \<lparr> started = True, isProcessing = False, intervalId = Some 1, intervals = [(1, 15000)],
       asyncOutbox =
         [\<lparr> position = 1, consumerName = ''c'', messageId = ''m1'', messageType = ''T'',
             data = ''{}'', delivered = False, failsCount = Some 3, addedAt = 50, sentAt = None \<rparr>,
          \<lparr> position = 2, consumerName = ''c'', messageId = ''m2'', messageType = ''T'',
             data = ''{}'', delivered = True, failsCount = Some 0, addedAt = 20, sentAt = Some 30 \<rparr>,
          \<lparr> position = 3, consumerName = ''c'', messageId = ''m3'', messageType = ''T'',
             data = ''{}'', delivered = False, failsCount = None, addedAt = 40, sentAt = None \<rparr>],
       calls = [], world = 0 \<rparr>"

text \<open>The example table before the consumer is started.\<close>

definition unstarted_example :: "nat AsyncOutboxConsumer" where
  "unstarted_example = polling_example\<lparr>started := False, intervalId := None, intervals := []\<rparr>"


section \<open>The document backend (createOutboxConsumer of hermes-mongodb)\<close>

text \<open>A document of the outbox collection; \<open>data\<close> is the event as JSON text.\<close>

record OutboxMessageModel =
  doc_id :: nat
  doc_partitionKey :: string
  doc_occurredAt :: nat
  doc_data :: string
  doc_sentAt :: "nat option"

text \<open>The consumer's document of the consumers collection.\<close>

record OutboxConsumerModel =
  lastProcessedId :: "nat option"
  resumeToken :: "nat option"
  lastUpdatedAt :: "nat option"

datatype OperationType = op_insert | op_update | op_replace | op_delete | op_other

text \<open>A change event of the stream: its resume token \<open>_id\<close>, the operation, the document
  and the key of the document.\<close>

record ChangeStreamDocument =
  change_id :: nat
  operationType :: OperationType
  fullDocument :: OutboxMessageModel
  documentKey :: nat

text \<open>
  What the consumer has done, latest first: a call of the publish callback for the
  document of a change event with its outcome (\<open>True\<close> when it returned normally), and
  an update of the consumer's document to a change event. The code never reads this
  record.
\<close>

datatype MongoAction =
    Published ChangeStreamDocument bool
  | Acked ChangeStreamDocument

text \<open>
  The outside world of a run. \<open>mongo_publish\<close> is the callback \<open>publish\<close> of the
  parameters: it receives the event and nothing else, and answers \<open>True\<close> when it returns
  normally. \<open>stop_called\<close> says, at each point where the loop awaits, whether the host has
  invoked the stop handle meanwhile. \<open>db_ok\<close> says whether the next operation on the
  database or the cursor succeeds, and \<open>mongo_now\<close> is the clock \<open>now()\<close>. The error
  sinks \<open>onFailedPublish\<close> and \<open>onDbError\<close> are taken to return normally.
\<close>

record 'w MongoEnv =
  mongo_publish :: "string \<Rightarrow> 'w \<Rightarrow> bool \<times> 'w"
  stop_called :: "'w \<Rightarrow> bool \<times> 'w"
  db_ok :: "'w \<Rightarrow> bool \<times> 'w"
  mongo_now :: "'w \<Rightarrow> nat"

text \<open>
  A started consumer: the cursor (\<open>closed\<close>, and the change events it has still to
  deliver, in upstream order), whether \<open>shouldStopPromise\<close> is resolved, the outbox
  collection, the consumer's document, the record of actions and the outside world.
\<close>

record 'w MongoConsumer =
  closed :: bool
  shouldStop :: bool
  stream :: "ChangeStreamDocument list"
  messages :: "OutboxMessageModel list"
  consumer :: OutboxConsumerModel
  history :: "MongoAction list"
  mworld :: 'w

text \<open>The stop handle: \<open>if (!watchCursor.closed) { shouldStopPromise.resolve(null); await
  watchCursor.close() }\<close>.\<close>

definition mongo_stop :: "'w MongoConsumer \<Rightarrow> 'w MongoConsumer" where
  "mongo_stop s = (if \<not> closed s then s\<lparr>shouldStop := True, closed := True\<rparr> else s)"

text \<open>An \<open>await\<close> of the loop: the host may invoke the stop handle before the loop resumes.\<close>

definition await :: "'w MongoEnv \<Rightarrow> 'w MongoConsumer \<Rightarrow> 'w MongoConsumer" where
  "await env s =
     (let (called, w') = stop_called env (mworld s); s' = s\<lparr>mworld := w'\<rparr>
      in if called then mongo_stop s' else s')"

text \<open>
  \<open>_waitUntilEventIsSent\<close>. The loop runs until the callback returns normally or the
  cursor is closed; \<open>n\<close> bounds the number of its rounds, and \<open>None\<close> is the answer of a
  loop that is still retrying after \<open>n\<close> rounds.
\<close>

fun waitUntilEventIsSent ::
  "nat \<Rightarrow> 'w MongoEnv \<Rightarrow> ChangeStreamDocument \<Rightarrow> 'w MongoConsumer
     \<Rightarrow> bool option \<times> 'w MongoConsumer"
where
  "waitUntilEventIsSent 0 env ev s = (None, s)"
| "waitUntilEventIsSent (Suc n) env ev s =
     (if closed s then (Some False, s)
      else
        (let (returned, w1) = mongo_publish env (doc_data (fullDocument ev)) (mworld s);
             s1 = await env (s\<lparr>history := Published ev returned # history s, mworld := w1\<rparr>)
         in if returned then (Some True, s1)
            else waitUntilEventIsSent n env ev (await env s1)))"

text \<open>\<open>updateOne({ _id }, { $set: { sentAt: now() } })\<close> on the outbox collection: the first
  document with that \<open>_id\<close> gets the time stamp.\<close>

fun setSentAt :: "nat \<Rightarrow> nat \<Rightarrow> OutboxMessageModel list \<Rightarrow> OutboxMessageModel list" where
  "setSentAt i t [] = []"
| "setSentAt i t (d # ds) =
     (if doc_id d = i then d\<lparr>doc_sentAt := Some t\<rparr> # ds else d # setSentAt i t ds)"

text \<open>
  Modelled from the spec: \<open>consumer.update\<close> of \<open>getConsumer.js\<close> is not among the sources.
  It persists the consumer-state row: the key of the last processed document and the
  resume token of its change event, with the time of the update.
\<close>

definition consumerUpdate :: "nat \<Rightarrow> nat \<Rightarrow> nat \<Rightarrow> OutboxConsumerModel \<Rightarrow> OutboxConsumerModel" where
  "consumerUpdate key token t c =
     c\<lparr>lastProcessedId := Some key, resumeToken := Some token, lastUpdatedAt := Some t\<rparr>"

text \<open>\<open>await db.collection(...).updateOne({ _id: message._id }, { $set: { sentAt: now() } })\<close>:
  the answer is \<open>False\<close> when the update throws.\<close>

definition saveTimestamp ::
  "'w MongoEnv \<Rightarrow> ChangeStreamDocument \<Rightarrow> 'w MongoConsumer \<Rightarrow> bool \<times> 'w MongoConsumer"
where
  "saveTimestamp env ev s =
     (let (ok, w1) = db_ok env (mworld s)
      in if ok
         then (True, await env
                 (s\<lparr>messages := setSentAt (doc_id (fullDocument ev))
                                    (mongo_now env w1) (messages s),
                    mworld := w1\<rparr>))
         else (False, s\<lparr>mworld := w1\<rparr>))"

text \<open>\<open>await consumer.update(documentKey._id, resumeToken)\<close>: the answer is \<open>False\<close> when the
  update throws.\<close>

definition updateConsumer ::
  "'w MongoEnv \<Rightarrow> ChangeStreamDocument \<Rightarrow> 'w MongoConsumer \<Rightarrow> bool \<times> 'w MongoConsumer"
where
  "updateConsumer env ev s =
     (let (ok, w1) = db_ok env (mworld s)
      in if ok
         then (True, await env
                 (s\<lparr>consumer := consumerUpdate (documentKey ev) (change_id ev)
                                   (mongo_now env w1) (consumer s),
                    history := Acked ev # history s,
                    mworld := w1\<rparr>))
         else (False, s\<lparr>mworld := w1\<rparr>))"

text \<open>
  The statements after a successful publish, inside the \<open>try\<close> of \<open>watch\<close>: with
  \<open>saveTimestamps\<close> the update of the outbox document and then the update of the
  consumer's document, without it the update of the consumer's document alone. The
  answer is \<open>False\<close> when a statement threw; what follows it is not reached.
\<close>

definition acknowledge ::
  "bool \<Rightarrow> 'w MongoEnv \<Rightarrow> ChangeStreamDocument \<Rightarrow> 'w MongoConsumer \<Rightarrow> bool \<times> 'w MongoConsumer"
where
  "acknowledge saveTimestamps env ev s =
     (if saveTimestamps then
        (case saveTimestamp env ev s of
           (True, s1) \<Rightarrow> updateConsumer env ev s1
         | (False, s1) \<Rightarrow> (False, s1))
      else updateConsumer env ev s)"

text \<open>How a round of the loop of \<open>watch\<close> ends: the loop goes on, or it is left.\<close>

datatype 'w Round = Continue "'w MongoConsumer" | Break "'w MongoConsumer"

text \<open>
  A round of the loop of \<open>watch\<close>. It awaits the race of the stop signal with
  \<open>hasNext()\<close>. A resolved stop signal closes the cursor and leaves the loop. With no
  event to deliver the race stays pending, and the loop rests in the state it has. An
  event is read with \<open>next()\<close>; one that is no insert is skipped; for an insert the
  callback is called until it succeeds, and then the acknowledgement is written.
  Whatever throws inside the \<open>try\<close> is handed to \<open>onDbError\<close>, and the loop goes on after
  the pause. A retry loop that is still running after \<open>n\<close> rounds leaves the state as it
  is then.
\<close>

definition watch_round ::
  "nat \<Rightarrow> bool \<Rightarrow> 'w MongoEnv \<Rightarrow> 'w MongoConsumer \<Rightarrow> 'w Round"
where
  "watch_round n saveTimestamps env s =
     (let s1 = await env s
      in if shouldStop s1 then Break (s1\<lparr>closed := True\<rparr>)
         else
           (case stream s1 of
              [] \<Rightarrow> Break s1
            | ev # rest \<Rightarrow>
                (let (ok, w1) = db_ok env (mworld s1)
                 in if \<not> ok then Continue (await env (s1\<lparr>mworld := w1\<rparr>))
                    else
                      (let s2 = await env (s1\<lparr>stream := rest, mworld := w1\<rparr>)
                       in if operationType ev \<noteq> op_insert then Continue s2
                          else
                            (case waitUntilEventIsSent n env ev s2 of
                               (None, s3) \<Rightarrow> Break s3
                             | (Some False, s3) \<Rightarrow> Continue s3
                             | (Some True, s3) \<Rightarrow>
                                 (let (ok', s4) = acknowledge saveTimestamps env ev s3
                                  in if ok' then Continue s4
                                     else Continue (await env s4)))))))"

text \<open>\<open>watch\<close>: \<open>while (!watchCursor.closed)\<close> around the round; \<open>n\<close> bounds the rounds of
  this loop and of the retry loop inside.\<close>

fun watch :: "nat \<Rightarrow> bool \<Rightarrow> 'w MongoEnv \<Rightarrow> 'w MongoConsumer \<Rightarrow> 'w MongoConsumer" where
  "watch 0 saveTimestamps env s = s"
| "watch (Suc n) saveTimestamps env s =
     (if closed s then s
      else (case watch_round n saveTimestamps env s of
              Break s' \<Rightarrow> s'
            | Continue s' \<Rightarrow> watch n saveTimestamps env s'))"

subsection \<open>Notions for the statements about the document backend\<close>

text \<open>The change events acknowledged in a record of history, oldest first.\<close>

fun acked :: "MongoAction list \<Rightarrow> ChangeStreamDocument list" where
  "acked [] = []"
| "acked (Acked ev # older) = acked older @ [ev]"
| "acked (Published ev returned # older) = acked older"

text \<open>Every acknowledgement of the record comes after a call of the callback for the same
  change event that returned normally.\<close>

fun acks_follow_success :: "MongoAction list \<Rightarrow> bool" where
  "acks_follow_success [] = True"
| "acks_follow_success (Acked ev # older) =
     (Published ev True \<in> set older \<and> acks_follow_success older)"
| "acks_follow_success (Published ev returned # older) = acks_follow_success older"

text \<open>The callback has been called for the document of a change event.\<close>

definition delivered_to_callback :: "ChangeStreamDocument \<Rightarrow> MongoAction list \<Rightarrow> bool" where
  "delivered_to_callback ev log = (Published ev True \<in> set log \<or> Published ev False \<in> set log)"

text \<open>
  At every acknowledgement of the record, the callback had been called for each insert
  that stands in the upstream order \<open>upstream\<close> at or before the acknowledged event.
\<close>

fun no_gap :: "ChangeStreamDocument list \<Rightarrow> MongoAction list \<Rightarrow> bool" where
  "no_gap upstream [] = True"
| "no_gap upstream (Acked ev # older) =
     (list_all (\<lambda>e. operationType e = op_insert \<longrightarrow> delivered_to_callback e older)
        (takeWhile (\<lambda>e. e \<noteq> ev) upstream @ [ev])
      \<and> no_gap upstream older)"
| "no_gap upstream (Published ev returned # older) = no_gap upstream older"

text \<open>A consumer that has just started on the change events \<open>evs\<close> and the outbox
  collection \<open>docs\<close>.\<close>

definition mongo_started ::
  "ChangeStreamDocument list \<Rightarrow> OutboxMessageModel list \<Rightarrow> 'w \<Rightarrow> 'w MongoConsumer" where
  "mongo_started evs docs w =
     \<lparr> closed = False, shouldStop = False, stream = evs, messages = docs,
       consumer = \<lparr> lastProcessedId = None, resumeToken = None, lastUpdatedAt = None \<rparr>,
       history = [], mworld = w \<rparr>"

text \<open>
  An outside world for the examples: its state counts the calls of the callback, which
  throws on its first \<open>k\<close> calls and returns normally afterwards; the host never stops the
  consumer, the database never fails and the clock shows 1000.
\<close>

definition mongo_failing_first :: "nat \<Rightarrow> nat MongoEnv" where
  "mongo_failing_first k =
     \<lparr> mongo_publish = (\<lambda>e w. (k \<le> w, Suc w)), stop_called = (\<lambda>w. (False, w)),
       db_ok = (\<lambda>w. (True, w)), mongo_now = (\<lambda>w. 1000) \<rparr>"

text \<open>The insert event of a document, with the resume token \<open>tok\<close>.\<close>

definition insert_event :: "nat \<Rightarrow> OutboxMessageModel \<Rightarrow> ChangeStreamDocument" where
  "insert_event tok d =
     \<lparr> change_id = tok, operationType = op_insert, fullDocument = d, documentKey = doc_id d \<rparr>"

definition example_doc :: "nat \<Rightarrow> string \<Rightarrow> OutboxMessageModel" where
  "example_doc i payload =
     \<lparr> doc_id = i, doc_partitionKey = ''default'', doc_occurredAt = 5, doc_data = payload,
       doc_sentAt = None \<rparr>"


text \<open>
  What holds of a consumer at the start of each round, \<open>upstream\<close> being the change events
  of the session in upstream order and \<open>k\<close> the number of them the cursor has delivered:
  the cursor has the others still to deliver, the acknowledged events are among the
  delivered ones, in upstream order, the record of actions is as described above, and
  the resume token of the consumer's document is that of the last acknowledged event.
\<close>

definition watch_invariant ::
  "ChangeStreamDocument list \<Rightarrow> nat \<Rightarrow> 'w MongoConsumer \<Rightarrow> bool" where
  "watch_invariant upstream k s =
     (k \<le> length upstream \<and> stream s = drop k upstream
    \<and> subseq (acked (history s)) (take k upstream)
    \<and> acks_follow_success (history s)
    \<and> no_gap upstream (history s)
    \<and> (if acked (history s) = [] then True
        else resumeToken (consumer s) = Some (change_id (last (acked (history s))))
           \<and> lastProcessedId (consumer s) = Some (documentKey (last (acked (history s))))))"

text \<open>The callback has been called for every insert among the first \<open>k\<close> change events.\<close>

definition all_delivered :: "ChangeStreamDocument list \<Rightarrow> nat \<Rightarrow> MongoAction list \<Rightarrow> bool" where
  "all_delivered upstream k log =
     list_all (\<lambda>e. operationType e = op_insert \<longrightarrow> delivered_to_callback e log) (take k upstream)"

text \<open>Two documents that differ at most in \<open>sentAt\<close>.\<close>

definition same_but_sentAt :: "OutboxMessageModel \<Rightarrow> OutboxMessageModel \<Rightarrow> bool" where
  "same_but_sentAt d d' = (d'\<lparr>doc_sentAt := doc_sentAt d\<rparr> = d)"

text \<open>An outside world that records what the callback receives: the callback throws on
  its first \<open>k\<close> calls and returns normally afterwards.\<close>

definition mongo_recording :: "nat \<Rightarrow> (string list) MongoEnv" where
  "mongo_recording k =
     \<lparr> mongo_publish = (\<lambda>e w. (k \<le> length w, w @ [e])), stop_called = (\<lambda>w. (False, w)),
       db_ok = (\<lambda>w. (True, w)), mongo_now = (\<lambda>w. 1000) \<rparr>"


section \<open>Properties of the tuple decoding\<close>

lemma fromCharCode_t: "fromCharCode (sint (b::byte)) = 0x74 \<longleftrightarrow> b = 0x74"
proof
  assume "b = 0x74"
  then show "fromCharCode (sint b) = 0x74" by (simp add: fromCharCode_def)
next
  assume a: "fromCharCode (sint b) = 0x74"
  have r: "- 128 \<le> sint b" "sint b < 128"
    using sint_ge [of b] sint_lt [of b] by simp_all
  from a have "nat (sint b mod 65536) = 116" by (simp add: fromCharCode_def)
  moreover have "\<And>x::int. - 128 \<le> x \<Longrightarrow> x < 128 \<Longrightarrow> nat (x mod 65536) = 116 \<Longrightarrow> x = 116"
  proof -
    fix x :: int
    assume x: "- 128 \<le> x" "x < 128" "nat (x mod 65536) = 116"
    show "x = 116"
    proof (cases "0 \<le> x")
      case True
      with x show ?thesis by simp
    next
      case False
      have "x mod 65536 = (x + 65536) mod 65536" by simp
      also have "\<dots> = x + 65536" using x False by (intro mod_pos_pos_trivial) simp_all
      finally show ?thesis using x by simp
    qed
  qed
  ultimately have "sint b = 116" using r by blast
  then have "sint b = sint (116 :: byte)" by simp
  then show "b = 0x74" by (simp only: signed_word_eqI)
qed

lemma be_nat_be32:
  assumes "n < 2 ^ 32"
  shows "be_nat (be32 n) = n"
proof -
  define q1 where "q1 = n div 256"
  define q2 where "q2 = q1 div 256"
  define q3 where "q3 = q2 div 256"
  have e2: "n div 65536 = q2" by (simp add: q2_def q1_def div_mult2_eq)
  have e3: "n div 16777216 = q3" by (simp add: q3_def q2_def q1_def div_mult2_eq)
  have "q3 < 256" using assms unfolding e3 [symmetric] by simp
  then have m3: "q3 mod 256 = q3" by simp
  have d1: "n = q1 * 256 + n mod 256" by (simp add: q1_def)
  have d2: "q1 = q2 * 256 + q1 mod 256" by (simp add: q2_def)
  have d3: "q2 = q3 * 256 + q2 mod 256" by (simp add: q3_def)
  have "be_nat (be32 n) = ((q3 mod 256 * 256 + q2 mod 256) * 256 + q1 mod 256) * 256 + n mod 256"
    by (simp add: be32_def unat_of_nat e2 e3 q1_def [symmetric])
  also have "\<dots> = ((q3 * 256 + q2 mod 256) * 256 + q1 mod 256) * 256 + n mod 256"
    by (simp only: m3)
  also have "\<dots> = (q2 * 256 + q1 mod 256) * 256 + n mod 256"
    using d3 by simp
  also have "\<dots> = q1 * 256 + n mod 256"
    using d2 by simp
  also have "\<dots> = n" using d1 by simp
  finally show ?thesis .
qed

lemma ascii_utf8: "\<forall>b \<in> set bs. b < 0x80 \<Longrightarrow> toString_utf8 bs = map unat bs"
  by (induction bs) auto

lemma is_digit10: "is_digit 10 c \<longleftrightarrow> 48 \<le> c \<and> c \<le> 57"
  by (auto simp: is_digit_def digit_val_def Let_def split: option.splits if_splits)

lemma digit_not_ws: "is_digit 10 c \<Longrightarrow> \<not> is_ws c"
  by (auto simp: is_digit10 is_ws_def)

lemma digits_value_snoc:
  "digits_value r (ds @ [c]) = digits_value r ds * r + (case digit_val r c of None \<Rightarrow> 0 | Some d \<Rightarrow> d)"
  by (simp add: digits_value_def)

lemma unat_digit: "d < 10 \<Longrightarrow> unat (of_nat (48 + d) :: byte) = 48 + d"
  by (simp only: unat_of_nat) simp

lemma dec_digits_nonempty: "dec_digits n \<noteq> []"
  by (subst dec_digits.simps) simp

lemma dec_digits_all: "list_all (is_digit 10) (map unat (dec_digits n))"
proof (induction n rule: dec_digits.induct)
  case (1 n)
  show ?case
  proof (cases "n < 10")
    case True
    then show ?thesis
      by (subst dec_digits.simps) (simp add: is_digit10 unat_digit del: of_nat_add)
  next
    case False
    have "n mod 10 < 10" by simp
    then have "unat (of_nat (48 + n mod 10) :: byte) = 48 + n mod 10" by (rule unat_digit)
    moreover have "is_digit 10 (48 + n mod 10)" by (simp add: is_digit10)
    ultimately show ?thesis using False 1
      by (subst dec_digits.simps) (simp del: of_nat_add)
  qed
qed

lemma dec_digits_value: "digits_value 10 (map unat (dec_digits n)) = n"
proof (induction n rule: dec_digits.induct)
  case (1 n)
  show ?case
  proof (cases "n < 10")
    case True
    then show ?thesis
      by (subst dec_digits.simps)
         (simp add: digits_value_def digit_val_def unat_digit del: of_nat_add)
  next
    case False
    have "n mod 10 < 10" by simp
    then have u: "unat (of_nat (48 + n mod 10) :: byte) = 48 + n mod 10" by (rule unat_digit)
    have "digit_val 10 (48 + n mod 10) = Some (n mod 10)" by (simp add: digit_val_def)
    with False 1 u show ?thesis
      by (subst dec_digits.simps) (simp add: digits_value_snoc del: of_nat_add)
  qed
qed

lemma parseInt10_digits:
  assumes "ds \<noteq> []" "list_all (is_digit 10) ds"
  shows "parseInt10 ds = Num (int (digits_value 10 ds))"
proof -
  from assms have h: "is_digit 10 (hd ds)" by (cases ds) simp_all
  then have d: "dropWhile is_ws ds = ds"
    using assms(1) by (simp add: dropWhile_eq_self_iff digit_not_ws)
  from h have s: "hd ds \<noteq> 0x2B" "hd ds \<noteq> 0x2D" by (auto simp: is_digit10)
  from assms(2) have t: "takeWhile (is_digit 10) ds = ds"
    by (simp add: takeWhile_eq_all_conv list_all_iff)
  show ?thesis using assms(1) by (simp add: parseInt10_def d s t Let_def)
qed

lemma parseInt10_neg_digits:
  assumes "ds \<noteq> []" "list_all (is_digit 10) ds" "digits_value 10 ds \<noteq> 0"
  shows "parseInt10 (0x2D # ds) = Num (- int (digits_value 10 ds))"
proof -
  have d: "\<not> is_ws 0x2D" by (simp add: is_ws_def)
  from assms(2) have t: "takeWhile (is_digit 10) ds = ds"
    by (simp add: takeWhile_eq_all_conv list_all_iff)
  show ?thesis using assms(1,3) by (simp add: parseInt10_def d t Let_def)
qed

lemma trim_id:
  assumes "s \<noteq> []" "\<not> is_ws (hd s)" "\<not> is_ws (last s)"
  shows "trim s = s"
proof -
  have "dropWhile is_ws s = s" using assms by (simp add: dropWhile_eq_self_iff)
  moreover have "dropWhile is_ws (rev s) = rev s"
    using assms by (simp add: dropWhile_eq_self_iff hd_rev)
  ultimately show ?thesis by (simp add: trim_def)
qed

lemma all_digits_Some:
  "ds \<noteq> [] \<Longrightarrow> list_all (is_digit 10) ds \<Longrightarrow> all_digits 10 ds = Some (digits_value 10 ds)"
  by (simp add: all_digits_def)

lemma nondecimal_None_digits:
  "list_all (is_digit 10) ds \<Longrightarrow> nondecimal_literal ds = None"
  by (auto simp: nondecimal_literal_def is_digit10 split: list.splits)

lemma BigInt_digits:
  assumes "ds \<noteq> []" "list_all (is_digit 10) ds"
  shows "BigInt ds = Inr (int (digits_value 10 ds))"
proof -
  from assms have "is_digit 10 (hd ds)" "is_digit 10 (last ds)"
    by (auto simp: list_all_iff)
  then have t: "trim ds = ds" using assms(1) by (intro trim_id) (auto dest: digit_not_ws)
  from assms have "hd ds \<noteq> 0x2D" "hd ds \<noteq> 0x2B" by (cases ds; auto simp: is_digit10)+
  then have "signed_decimal_literal ds = Some (int (digits_value 10 ds))"
    using assms by (cases ds) (auto simp: signed_decimal_literal_def all_digits_Some)
  then show ?thesis
    using assms by (simp add: BigInt_def t Let_def nondecimal_None_digits)
qed

lemma BigInt_neg_digits:
  assumes "ds \<noteq> []" "list_all (is_digit 10) ds"
  shows "BigInt (0x2D # ds) = Inr (- int (digits_value 10 ds))"
proof -
  from assms have "is_digit 10 (last ds)" by (auto simp: list_all_iff)
  then have "\<not> is_ws (last (0x2D # ds))" using assms(1) by (auto dest: digit_not_ws)
  moreover have "\<not> is_ws (hd (0x2D # ds))" by (simp add: is_ws_def)
  ultimately have t: "trim (0x2D # ds) = 0x2D # ds" by (intro trim_id) simp_all
  have n: "nondecimal_literal (0x2D # ds) = None"
    by (simp add: nondecimal_literal_def split: list.splits)
  have "signed_decimal_literal (0x2D # ds) = Some (- int (digits_value 10 ds))"
    using assms by (simp add: signed_decimal_literal_def all_digits_Some)
  then show ?thesis by (simp add: BigInt_def t n Let_def)
qed


lemma column_header:
  assumes "length val < 2 ^ 32"
  shows "readInt8 (pre @ column tag val @ post) (length pre) = Inr (sint tag)"
    and "readUInt32BE (pre @ column tag val @ post) (addInt8 (length pre)) = Inr (length val)"
    and "subarray (pre @ column tag val @ post) (addInt32 (addInt8 (length pre)))
           (addInt32 (addInt8 (length pre)) + length val) = val"
proof -
  show "readInt8 (pre @ column tag val @ post) (length pre) = Inr (sint tag)"
    by (simp add: readInt8_def column_def)
  have "take 4 (drop (Suc (length pre)) (pre @ column tag val @ post)) = be32 (length val)"
    by (simp add: column_def be32_def)
  moreover have "length (be32 (length val)) = 4" by (simp add: be32_def)
  ultimately show "readUInt32BE (pre @ column tag val @ post) (addInt8 (length pre)) = Inr (length val)"
    using be_nat_be32 [OF assms]
    by (simp add: readUInt32BE_def readUIntBE_def addInt8_def column_def del: be_nat.simps)
  have g: "drop k (take (k + length v) (h @ v @ p)) = v" if "length h = k"
    for k and h v p :: Buffer
    using that by simp
  have "length (pre @ tag # be32 (length val)) = length pre + 5" by (simp add: be32_def)
  from g [OF this, of val post]
  show "subarray (pre @ column tag val @ post) (addInt32 (addInt8 (length pre)))
           (addInt32 (addInt8 (length pre)) + length val) = val"
    by (simp add: subarray_def addInt8_def addInt32_def column_def add.commute)
qed

lemma dec_digits_bound: "n < 10 ^ length (dec_digits n)"
proof (induction n rule: dec_digits.induct)
  case (1 n)
  show ?case
  proof (cases "n < 10")
    case True
    then show ?thesis by (subst dec_digits.simps) simp
  next
    case False
    with 1 have "n div 10 < 10 ^ length (dec_digits (n div 10))" by simp
    then have "n < 10 * 10 ^ length (dec_digits (n div 10))" by simp
    with False show ?thesis by (subst dec_digits.simps) simp
  qed
qed

lemma dec_digits_ascii: "b \<in> set (dec_digits n) \<Longrightarrow> b < 0x80"
proof -
  assume "b \<in> set (dec_digits n)"
  with dec_digits_all [of n] have "is_digit 10 (unat b)" by (simp add: list_all_iff)
  then have "unat b < 128" by (simp add: is_digit10)
  then show ?thesis by (simp add: word_less_nat_alt)
qed


lemma int8_text_chars:
  "map unat (int8_text i) =
     (if i < 0 then 0x2D # map unat (dec_digits (nat (- i))) else map unat (dec_digits (nat i)))"
  by (simp add: int8_text_def)

lemma int8_text_utf8: "toString_utf8 (int8_text i) = map unat (int8_text i)"
proof (rule ascii_utf8, rule ballI)
  fix b assume "b \<in> set (int8_text i)"
  then show "b < 0x80"
    by (auto simp: int8_text_def dest: dec_digits_ascii split: if_splits)
qed

lemma parseInt10_int8_text: "parseInt10 (map unat (int8_text i)) = Num i"
proof (cases "i < 0")
  case True
  then have "digits_value 10 (map unat (dec_digits (nat (- i)))) \<noteq> 0"
    by (simp add: dec_digits_value)
  with True show ?thesis
    using parseInt10_neg_digits [of "map unat (dec_digits (nat (- i)))"]
    by (simp add: int8_text_chars dec_digits_nonempty dec_digits_all dec_digits_value)
next
  case False
  then show ?thesis
    using parseInt10_digits [of "map unat (dec_digits (nat i))"]
    by (simp add: int8_text_chars dec_digits_nonempty dec_digits_all dec_digits_value)
qed

lemma BigInt_int8_text: "BigInt (map unat (int8_text i)) = Inr i"
proof (cases "i < 0")
  case True
  then show ?thesis
    using BigInt_neg_digits [of "map unat (dec_digits (nat (- i)))"]
    by (simp add: int8_text_chars dec_digits_nonempty dec_digits_all dec_digits_value)
next
  case False
  then show ?thesis
    using BigInt_digits [of "map unat (dec_digits (nat i))"]
    by (simp add: int8_text_chars dec_digits_nonempty dec_digits_all dec_digits_value)
qed

lemma int8_text_short:
  assumes "length (int8_text i) \<le> 8"
  shows "- (2 ^ 63) \<le> i \<and> i < 2 ^ 63"
proof -
  have b: "n < 10 ^ 8" if "length (dec_digits n) \<le> 8" for n
  proof -
    have "n < 10 ^ length (dec_digits n)" by (rule dec_digits_bound)
    also have "\<dots> \<le> (10::nat) ^ 8" using that by (intro power_increasing) simp_all
    finally show ?thesis .
  qed
  show ?thesis
  proof (cases "i < 0")
    case True
    with assms have "length (dec_digits (nat (- i))) \<le> 8" by (simp add: int8_text_def)
    then have "nat (- i) < 10 ^ 8" by (rule b)
    with True show ?thesis by simp
  next
    case False
    with assms have "length (dec_digits (nat i)) \<le> 8" by (simp add: int8_text_def)
    then have "nat i < 10 ^ 8" by (rule b)
    with False show ?thesis by simp
  qed
qed

lemma pos_after: "addInt32 (addInt8 p) + n = p + 5 + n" "addInt32 (addInt8 p) = p + 5"
  by (simp_all add: addInt32_def addInt8_def)

lemma readText_column:
  assumes "length val < 2 ^ 32"
  shows "readText (pre @ column tag val @ post) (length pre) =
           (if tag = 0x74 then Inr (JsString (toString_utf8 val), length pre + 5 + length val)
            else Inl (AssertionError ''readText.columnType''))"
  by (simp add: readText_def bind_def assert_def Let_def add_def column_header [OF assms]
        fromCharCode_t) (simp add: pos_after)

lemma readJsonb_column:
  assumes "length val < 2 ^ 32"
  shows "readJsonb (pre @ column tag val @ post) (length pre) =
           (if tag = 0x74 then Inr (JsString (toString_utf8 val), length pre + 5 + length val)
            else Inl (AssertionError ''readText.readJsonb''))"
  by (simp add: readJsonb_def bind_def assert_def Let_def add_def column_header [OF assms]
        fromCharCode_t) (simp add: pos_after)

lemma readBigInt_column:
  assumes "length val < 2 ^ 32"
  shows "readBigInt (pre @ column tag val @ post) (length pre) =
           (if tag = 0x74 then
              (if 8 < length val then
                 (case BigInt (toString_utf8 val) of
                    Inl e \<Rightarrow> Inl e
                  | Inr i \<Rightarrow> Inr (JsBigInt i, length pre + 5 + length val))
               else Inr (JsNumber (parseInt10 (toString_utf8 val)), length pre + 5 + length val))
            else Inl (AssertionError ''readUInt.columnType''))"
  by (simp add: readBigInt_def bind_def assert_def Let_def add_def column_header [OF assms]
        fromCharCode_t split: sum.splits) (simp add: pos_after)

lemma readUInt_column:
  assumes "length val < 2 ^ 32" "tag \<noteq> 0x74"
  shows "readUInt (pre @ column tag val @ post) (length pre) =
           Inl (AssertionError ''readUInt.columnType'')"
  using assms(2)
  by (simp add: readUInt_def bind_def assert_def Let_def column_header(1,2) [OF assms(1)]
        fromCharCode_t)

text \<open>
  Claim C8. A column is read as a tag byte at the cursor, a big-endian 32-bit length in the
  next four bytes, and the value in the bytes after them. A tag other than \<open>t\<close> fails
  the assertion of every reader. On a \<open>t\<close> column, \<open>readText\<close> and \<open>readJsonb\<close> return
  the UTF-8 text of exactly the value bytes and leave the cursor behind them;
  \<open>readBigInt\<close> hands the text to \<open>parseInt\<close> when the length field is at most 8 and to
  \<open>BigInt\<close> when it is longer. On the decimal text of an integer \<open>i\<close> this gives the
  Number \<open>i\<close>, which then lies in the signed 64-bit range, or the arbitrary-precision
  integer \<open>i\<close>.
\<close>

theorem tuple_column_decoding:
  assumes "length val < 2 ^ 32"
  shows
    "(tag \<noteq> 0x74 \<longrightarrow>
        readUInt (pre @ column tag val @ post) (length pre)
          = Inl (AssertionError ''readUInt.columnType'')
      \<and> readBigInt (pre @ column tag val @ post) (length pre)
          = Inl (AssertionError ''readUInt.columnType'')
      \<and> readText (pre @ column tag val @ post) (length pre)
          = Inl (AssertionError ''readText.columnType'')
      \<and> readJsonb (pre @ column tag val @ post) (length pre)
          = Inl (AssertionError ''readText.readJsonb''))
   \<and> (tag = 0x74 \<longrightarrow>
        readText (pre @ column tag val @ post) (length pre)
          = Inr (JsString (toString_utf8 val), length pre + 5 + length val)
      \<and> readJsonb (pre @ column tag val @ post) (length pre)
          = Inr (JsString (toString_utf8 val), length pre + 5 + length val)
      \<and> readBigInt (pre @ column tag val @ post) (length pre)
          = (if 8 < length val then
               (case BigInt (toString_utf8 val) of
                  Inl e \<Rightarrow> Inl e
                | Inr i \<Rightarrow> Inr (JsBigInt i, length pre + 5 + length val))
             else Inr (JsNumber (parseInt10 (toString_utf8 val)), length pre + 5 + length val))
      \<and> (val = int8_text i \<longrightarrow>
            readBigInt (pre @ column tag val @ post) (length pre)
              = Inr (if 8 < length val then JsBigInt i else JsNumber (Num i),
                     length pre + 5 + length val)
          \<and> (length val \<le> 8 \<longrightarrow> - (2 ^ 63) \<le> i \<and> i < 2 ^ 63)))"
proof (intro conjI impI)
  assume t: "tag \<noteq> 0x74"
  show "readUInt (pre @ column tag val @ post) (length pre)
          = Inl (AssertionError ''readUInt.columnType'')"
    using assms t by (rule readUInt_column)
  show "readBigInt (pre @ column tag val @ post) (length pre)
          = Inl (AssertionError ''readUInt.columnType'')"
    using t by (simp add: readBigInt_column [OF assms])
  show "readText (pre @ column tag val @ post) (length pre)
          = Inl (AssertionError ''readText.columnType'')"
    using t by (simp add: readText_column [OF assms])
  show "readJsonb (pre @ column tag val @ post) (length pre)
          = Inl (AssertionError ''readText.readJsonb'')"
    using t by (simp add: readJsonb_column [OF assms])
next
  assume t: "tag = 0x74"
  show "readText (pre @ column tag val @ post) (length pre)
          = Inr (JsString (toString_utf8 val), length pre + 5 + length val)"
    using t by (simp add: readText_column [OF assms])
  show "readJsonb (pre @ column tag val @ post) (length pre)
          = Inr (JsString (toString_utf8 val), length pre + 5 + length val)"
    using t by (simp add: readJsonb_column [OF assms])
  show "readBigInt (pre @ column tag val @ post) (length pre)
          = (if 8 < length val then
               (case BigInt (toString_utf8 val) of
                  Inl e \<Rightarrow> Inl e
                | Inr i \<Rightarrow> Inr (JsBigInt i, length pre + 5 + length val))
             else Inr (JsNumber (parseInt10 (toString_utf8 val)), length pre + 5 + length val))"
    using t by (simp add: readBigInt_column [OF assms])
  {
    assume v: "val = int8_text i"
    show "readBigInt (pre @ column tag val @ post) (length pre)
              = Inr (if 8 < length val then JsBigInt i else JsNumber (Num i),
                     length pre + 5 + length val)"
      using t unfolding readBigInt_column [OF assms]
      by (simp add: v int8_text_utf8 parseInt10_int8_text BigInt_int8_text)
    assume "length val \<le> 8"
    then show "- (2 ^ 63) \<le> i" "i < 2 ^ 63"
      using int8_text_short [of i] by (simp_all add: v)
  }
qed

text \<open>Four concrete columns: a ten-digit and a three-character \<open>bigint\<close>, a text value
  followed by another byte, and a \<open>jsonb\<close> column sent in binary format.\<close>

lemma int8_text_ex1: "int8_text 1234567890 = [0x31,0x32,0x33,0x34,0x35,0x36,0x37,0x38,0x39,0x30]"
  by (simp add: int8_text_def dec_digits.simps)

lemma int8_text_ex2: "int8_text (- 42) = [0x2D, 0x34, 0x32]"
  by (simp add: int8_text_def dec_digits.simps)

theorem tuple_column_decoding_witness:
  "readBigInt [0x74, 0, 0, 0, 10, 0x31, 0x32, 0x33, 0x34, 0x35, 0x36, 0x37, 0x38, 0x39, 0x30, 0x74] 0
     = Inr (JsBigInt 1234567890, 15)
   \<and> readBigInt [0x74, 0, 0, 0, 3, 0x2D, 0x34, 0x32] 0 = Inr (JsNumber (Num (- 42)), 8)
   \<and> readText [0x74, 0, 0, 0, 2, 0x68, 0x69, 0xFF] 0 = Inr (JsString [0x68, 0x69], 7)
   \<and> readJsonb [0x62, 0, 0, 0, 2, 0x7B, 0x7D] 0 = Inl (AssertionError ''readText.readJsonb'')"
proof (intro conjI)
  have h: "length (int8_text 1234567890) < 2 ^ 32" by (simp add: int8_text_ex1)
  have "readBigInt ([] @ column 0x74 (int8_text 1234567890) @ [0x74]) (length ([] :: Buffer))
          = Inr (if 8 < length (int8_text 1234567890) then JsBigInt 1234567890
                 else JsNumber (Num 1234567890),
                 length ([] :: Buffer) + 5 + length (int8_text 1234567890))"
    using tuple_column_decoding [OF h, of "0x74" "[]" "[0x74]" 1234567890] by blast
  then show "readBigInt [0x74, 0, 0, 0, 10, 0x31, 0x32, 0x33, 0x34, 0x35, 0x36, 0x37, 0x38, 0x39, 0x30, 0x74] 0
     = Inr (JsBigInt 1234567890, 15)"
    by (simp add: int8_text_ex1 column_def be32_def)
next
  have h: "length (int8_text (- 42)) < 2 ^ 32" by (simp add: int8_text_ex2)
  have "readBigInt ([] @ column 0x74 (int8_text (- 42)) @ []) (length ([] :: Buffer))
          = Inr (if 8 < length (int8_text (- 42)) then JsBigInt (- 42)
                 else JsNumber (Num (- 42)),
                 length ([] :: Buffer) + 5 + length (int8_text (- 42)))"
    using tuple_column_decoding [OF h, of "0x74" "[]" "[]" "- 42"] by blast
  then show "readBigInt [0x74, 0, 0, 0, 3, 0x2D, 0x34, 0x32] 0 = Inr (JsNumber (Num (- 42)), 8)"
    by (simp add: int8_text_ex2 column_def be32_def)
next
  have h: "length [0x68, 0x69 :: byte] < 2 ^ 32" by simp
  have "readText ([] @ column 0x74 [0x68, 0x69] @ [0xFF]) (length ([] :: Buffer))
          = Inr (JsString (toString_utf8 [0x68, 0x69]), length ([] :: Buffer) + 5 + length [0x68, 0x69 :: byte])"
    using tuple_column_decoding [OF h, of "0x74" "[]" "[0xFF]" 0] by blast
  then show "readText [0x74, 0, 0, 0, 2, 0x68, 0x69, 0xFF] 0 = Inr (JsString [0x68, 0x69], 7)"
    by (simp add: column_def be32_def)
next
  have h: "length [0x7B, 0x7D :: byte] < 2 ^ 32" by simp
  have "(0x62 :: byte) \<noteq> 0x74" by simp
  then have "readJsonb ([] @ column 0x62 [0x7B, 0x7D] @ []) (length ([] :: Buffer))
          = Inl (AssertionError ''readText.readJsonb'')"
    using tuple_column_decoding [OF h, of "0x62" "[]" "[]" 0] by blast
  then show "readJsonb [0x62, 0, 0, 0, 2, 0x7B, 0x7D] 0 = Inl (AssertionError ''readText.readJsonb'')"
    by (simp add: column_def be32_def)
qed

section \<open>Properties of the polling consumer\<close>

lemma rowAt_markDelivered:
  "rowAt p (markDelivered q t rows) =
     (if p = q then map_option (\<lambda>r. r\<lparr>delivered := True, sentAt := Some t\<rparr>) (rowAt p rows)
      else rowAt p rows)"
  by (induction rows) (auto simp: rowAt_def markDelivered_def)

lemma rowAt_incFailsCount:
  "rowAt p (incFailsCount q rows) =
     (if p = q
      then map_option (\<lambda>r. r\<lparr>failsCount := Some ((case failsCount r of None \<Rightarrow> 0 | Some n \<Rightarrow> n) + 1)\<rparr>)
             (rowAt p rows)
      else rowAt p rows)"
  by (induction rows) (auto simp: rowAt_def incFailsCount_def)



lemma rowAt_member:
  "distinct (map position rows) \<Longrightarrow> m \<in> set rows \<Longrightarrow> rowAt (position m) rows = Some m"
  by (induction rows) (auto simp: rowAt_def)

lemma rowAt_SomeD: "rowAt p rows = Some r \<Longrightarrow> r \<in> set rows \<and> position r = p"
  by (induction rows) (auto simp: rowAt_def split: if_splits)

lemma pending_subset: "set (pendingMessages rows) \<subseteq> {r \<in> set rows. delivered r = False}"
proof -
  have "set (pendingMessages rows) \<subseteq> set (sort_key addedAt (filter (\<lambda>r. delivered r = False) rows))"
    unfolding pendingMessages_def by (rule set_take_subset)
  then show ?thesis by auto
qed



lemma pending_distinct:
  assumes "distinct (map position rows)"
  shows "distinct (map position (pendingMessages rows))"
proof -
  let ?f = "filter (\<lambda>r. delivered r = False) rows"
  from assms have "distinct (map position ?f)" by (rule distinct_map_filter)
  then have "distinct ?f" "inj_on position (set ?f)" by (simp_all add: distinct_map)
  then have "distinct (map position (sort_key addedAt ?f))" by (simp add: distinct_map)
  then have "distinct (take 10 (map position (sort_key addedAt ?f)))" by (rule distinct_take)
  then show ?thesis by (simp add: pendingMessages_def take_map)
qed




lemma processMessages_step:
  assumes "sql_reliable env"
  shows "\<exists>returned w1 w2. publish env (toEnvelope m) (world s) = (returned, w1)
           \<and> processMessages env (m # ms) s =
               processMessages env ms
                 (s\<lparr>calls := calls s @ [(toEnvelope m, returned, w1)],
                    asyncOutbox := (if returned
                                    then markDelivered (position m) (now env w2) (asyncOutbox s)
                                    else incFailsCount (position m) (asyncOutbox s)),
                    world := w2\<rparr>)"
proof -
  obtain returned w1 where p: "publish env (toEnvelope m) (world s) = (returned, w1)"
    by (cases "publish env (toEnvelope m) (world s)")
  obtain w2 where ok: "sql_ok env w1 = (True, w2)"
    using assms by (cases "sql_ok env w1") (auto simp: sql_reliable_def dest: spec [of _ w1])
  show ?thesis
    apply (rule exI [of _ returned], rule exI [of _ w1], rule exI [of _ w2])
    using p ok apply (cases returned)
     apply (simp_all add: Let_def)
    done
qed

lemma thrown_snoc:
  "thrown p (log @ [(e, returned, w)]) =
     thrown p log + (if env_position e = p \<and> \<not> returned then 1 else 0)"
  by (simp add: thrown_def)

lemma counts_redeliveries_snoc:
  assumes "counts_redeliveries log"
      and "redeliveryCount e = int (thrown (env_position e) log)"
  shows "counts_redeliveries (log @ [(e, returned, w)])"
  unfolding counts_redeliveries_def
proof (intro allI impI)
  fix j assume "j < length (log @ [(e, returned, w)])"
  then consider "j < length log" | "j = length log" by fastforce
  then show "redeliveryCount (fst ((log @ [(e, returned, w)]) ! j))
               = int (thrown (env_position (fst ((log @ [(e, returned, w)]) ! j)))
                        (take j (log @ [(e, returned, w)])))"
  proof cases
    case 1
    with assms(1) show ?thesis by (simp add: counts_redeliveries_def nth_append)
  next
    case 2
    with assms(2) show ?thesis by (simp add: nth_append)
  qed
qed


lemma max_position_fresh: "r \<in> set rows \<Longrightarrow> position r \<le> fold max (map position rows) a"
proof (induction rows arbitrary: a)
  case Nil
  then show ?case by simp
next
  case (Cons x xs)
  have mono: "b \<le> fold max (map position xs) b" for b :: int
    by (induction xs arbitrary: b) (auto intro: order_trans [OF max.cobounded2])
  from Cons show ?case
  proof (cases "r = x")
    case True
    have "position x \<le> max (position x) a" by simp
    also have "\<dots> \<le> fold max (map position xs) (max (position x) a)" by (rule mono)
    finally show ?thesis using True by simp
  next
    case False
    with Cons show ?thesis by simp
  qed
qed

lemma step_invariant:
  fixes s :: "'w AsyncOutboxConsumer"
  assumes d: "distinct (map position (asyncOutbox s))"
      and fp: "failures_persisted s"
      and cr: "counts_redeliveries (calls s)"
      and la: "list_all (\<lambda>c. env_position (fst c) \<in> position ` set (asyncOutbox s)) (calls s)"
      and m: "rowAt (position m) (asyncOutbox s) = Some m"
      and t: "t = (if returned then markDelivered (position m) time (asyncOutbox s)
                   else incFailsCount (position m) (asyncOutbox s))"
      and s1: "s1 = s\<lparr>calls := calls s @ [(toEnvelope m, returned, w1)], asyncOutbox := t, world := w2\<rparr>"
  shows "distinct (map position (asyncOutbox s1))"
    and "map position (asyncOutbox s1) = map position (asyncOutbox s)"
    and "failures_persisted s1"
    and "counts_redeliveries (calls s1)"
    and "list_all (\<lambda>c. env_position (fst c) \<in> position ` set (asyncOutbox s1)) (calls s1)"
    and "\<forall>q. q \<noteq> position m \<longrightarrow> rowAt q (asyncOutbox s1) = rowAt q (asyncOutbox s)"
proof -
  have mem: "m \<in> set (asyncOutbox s)" using m by (auto dest: rowAt_SomeD)
  show pos: "map position (asyncOutbox s1) = map position (asyncOutbox s)"
    by (cases returned) (simp_all add: s1 t markDelivered_def incFailsCount_def comp_def cong: map_cong)
  then show "distinct (map position (asyncOutbox s1))" using d by simp
  have same: "r = m" if "r \<in> set (asyncOutbox s)" "position r = position m" for r
    using that m rowAt_member [OF d that(1)] by simp
  define upd where "upd = (\<lambda>r :: AsyncOutboxRow. if position r = position m
                       then (if returned then r\<lparr>delivered := True, sentAt := Some time\<rparr>
                             else r\<lparr>failsCount := Some ((case failsCount r of None \<Rightarrow> 0 | Some n \<Rightarrow> n) + 1)\<rparr>)
                       else r)"
  have tab: "asyncOutbox s1 = map upd (asyncOutbox s)"
    by (cases returned) (simp_all add: s1 t markDelivered_def incFailsCount_def upd_def)
  have log: "calls s1 = calls s @ [(toEnvelope m, returned, w1)]" by (simp add: s1)
  have upd_f: "failures (upd r) = failures r + (if position r = position m \<and> \<not> returned then 1 else 0)"
    and upd_p: "position (upd r) = position r" for r
    by (simp_all add: upd_def failures_def)
  show "failures_persisted s1"
    unfolding failures_persisted_def
  proof
    fix r' assume "r' \<in> set (asyncOutbox s1)"
    then obtain r where r: "r \<in> set (asyncOutbox s)" and r': "r' = upd r"
      unfolding tab by auto
    from fp r have f: "failures r = int (thrown (position r) (calls s))"
      by (simp add: failures_persisted_def)
    have e: "env_position (toEnvelope m) = position m" by (simp add: toEnvelope_def)
    show "failures r' = int (thrown (position r') (calls s1))"
      unfolding r' log upd_f upd_p thrown_snoc e f by simp
  qed
  have "redeliveryCount (toEnvelope m) = int (thrown (env_position (toEnvelope m)) (calls s))"
    using fp mem by (simp add: failures_persisted_def failures_def toEnvelope_def)
  with cr show "counts_redeliveries (calls s1)"
    by (simp add: s1 counts_redeliveries_snoc)
  have "position ` set (asyncOutbox s1) = position ` set (asyncOutbox s)"
    using pos by (metis set_map)
  moreover have "calls s1 = calls s @ [(toEnvelope m, returned, w1)]" by (simp add: s1)
  moreover have "env_position (toEnvelope m) = position m" by (simp add: toEnvelope_def)
  ultimately show "list_all (\<lambda>c. env_position (fst c) \<in> position ` set (asyncOutbox s1)) (calls s1)"
    using la mem by simp
  show "\<forall>q. q \<noteq> position m \<longrightarrow> rowAt q (asyncOutbox s1) = rowAt q (asyncOutbox s)"
    by (cases returned) (simp_all add: s1 t rowAt_markDelivered rowAt_incFailsCount)
qed

lemma loop_invariant:
  fixes s :: "'w AsyncOutboxConsumer"
  assumes "sql_reliable env"
      and "distinct (map position ms)"
      and "\<forall>m \<in> set ms. rowAt (position m) (asyncOutbox s) = Some m"
      and "distinct (map position (asyncOutbox s))"
      and "failures_persisted s"
      and "counts_redeliveries (calls s)"
      and "list_all (\<lambda>c. env_position (fst c) \<in> position ` set (asyncOutbox s)) (calls s)"
  shows "distinct (map position (asyncOutbox (snd (processMessages env ms s))))
       \<and> failures_persisted (snd (processMessages env ms s))
       \<and> counts_redeliveries (calls (snd (processMessages env ms s)))
       \<and> list_all (\<lambda>c. env_position (fst c)
                         \<in> position ` set (asyncOutbox (snd (processMessages env ms s))))
            (calls (snd (processMessages env ms s)))
       \<and> isProcessing (snd (processMessages env ms s)) = isProcessing s"
  using assms
proof (induction ms arbitrary: s)
  case Nil
  then show ?case by simp
next
  case (Cons m ms)
  from processMessages_step [OF Cons.prems(1), of m s ms]
  obtain returned w1 w2 where
    step: "processMessages env (m # ms) s =
             processMessages env ms
               (s\<lparr>calls := calls s @ [(toEnvelope m, returned, w1)],
                  asyncOutbox := (if returned
                                  then markDelivered (position m) (now env w2) (asyncOutbox s)
                                  else incFailsCount (position m) (asyncOutbox s)),
                  world := w2\<rparr>)"
    by blast
  define t where "t = (if returned then markDelivered (position m) (now env w2) (asyncOutbox s)
                       else incFailsCount (position m) (asyncOutbox s))"
  define s1 where "s1 = s\<lparr>calls := calls s @ [(toEnvelope m, returned, w1)], asyncOutbox := t, world := w2\<rparr>"
  have m_here: "rowAt (position m) (asyncOutbox s) = Some m" using Cons.prems(3) by simp
  note inv = step_invariant [OF Cons.prems(4) Cons.prems(5) Cons.prems(6) Cons.prems(7) m_here t_def s1_def]
  from Cons.prems(2) have d: "distinct (map position ms)" and nm: "position m \<notin> position ` set ms"
    by auto
  have pre: "\<forall>m' \<in> set ms. rowAt (position m') (asyncOutbox s1) = Some m'"
  proof
    fix m' assume a: "m' \<in> set ms"
    with nm have "position m' \<noteq> position m" by (metis imageI)
    with inv(6) have "rowAt (position m') (asyncOutbox s1) = rowAt (position m') (asyncOutbox s)"
      by simp
    with Cons.prems(3) a show "rowAt (position m') (asyncOutbox s1) = Some m'" by simp
  qed
  have ip: "isProcessing s1 = isProcessing s" by (simp add: s1_def)
  from Cons.IH [OF Cons.prems(1) d pre inv(1) inv(3) inv(4) inv(5)]
  show ?case unfolding step t_def [symmetric] s1_def [symmetric] ip by simp
qed

lemma cycle_invariant:
  assumes "sql_reliable env" "async_invariant s"
  shows "async_invariant (snd (processUndeliveredMessages env s))"
proof -
  from assms(2) have d: "distinct (map position (asyncOutbox s))"
      and fp: "failures_persisted s" and cr: "counts_redeliveries (calls s)"
      and la: "list_all (\<lambda>c. env_position (fst c) \<in> position ` set (asyncOutbox s)) (calls s)"
      and np: "\<not> isProcessing s"
    by (simp_all add: async_invariant_def)
  obtain w1 where ok: "sql_ok env (world s) = (True, w1)"
    using assms(1)
    by (cases "sql_ok env (world s)") (auto simp: sql_reliable_def dest: spec [of _ "world s"])
  define s1 where "s1 = s\<lparr>isProcessing := True, world := w1\<rparr>"
  have dp: "distinct (map position (pendingMessages (asyncOutbox s)))"
    using d by (rule pending_distinct)
  have pre: "\<forall>m \<in> set (pendingMessages (asyncOutbox s1)). rowAt (position m) (asyncOutbox s1) = Some m"
    using pending_subset [of "asyncOutbox s"] rowAt_member [OF d] by (auto simp: s1_def)
  have fp1: "failures_persisted s1" using fp by (simp add: failures_persisted_def s1_def)
  have "distinct (map position (asyncOutbox s1))" "counts_redeliveries (calls s1)"
       "list_all (\<lambda>c. env_position (fst c) \<in> position ` set (asyncOutbox s1)) (calls s1)"
       "distinct (map position (pendingMessages (asyncOutbox s1)))"
    using d cr la dp by (simp_all add: s1_def)
  from loop_invariant [OF assms(1) this(4) pre this(1) fp1 this(2) this(3)]
  have inv: "distinct (map position (asyncOutbox (snd (processMessages env (pendingMessages (asyncOutbox s1)) s1))))"
      "failures_persisted (snd (processMessages env (pendingMessages (asyncOutbox s1)) s1))"
      "counts_redeliveries (calls (snd (processMessages env (pendingMessages (asyncOutbox s1)) s1)))"
      "list_all (\<lambda>c. env_position (fst c)
                         \<in> position ` set (asyncOutbox (snd (processMessages env (pendingMessages (asyncOutbox s1)) s1))))
            (calls (snd (processMessages env (pendingMessages (asyncOutbox s1)) s1)))"
    by simp_all
  have res: "snd (processUndeliveredMessages env s)
               = (snd (processMessages env (pendingMessages (asyncOutbox s1)) s1))\<lparr>isProcessing := False\<rparr>"
    using np ok
    by (simp add: processUndeliveredMessages_def s1_def Let_def split: prod.splits)
  show ?thesis
    unfolding res async_invariant_def using inv
    by (simp add: failures_persisted_def)
qed

lemma insert_invariant:
  assumes "async_invariant s"
  shows "async_invariant (s\<lparr>asyncOutbox := insertAsync c mid mt payload t (asyncOutbox s)\<rparr>)"
proof -
  from assms have d: "distinct (map position (asyncOutbox s))"
      and fp: "failures_persisted s" and cr: "counts_redeliveries (calls s)"
      and la: "list_all (\<lambda>c. env_position (fst c) \<in> position ` set (asyncOutbox s)) (calls s)"
      and np: "\<not> isProcessing s"
    by (simp_all add: async_invariant_def)
  define p0 where "p0 = fold max (map position (asyncOutbox s)) 0 + 1"
  have fresh: "p0 \<notin> position ` set (asyncOutbox s)"
  proof
    assume "p0 \<in> position ` set (asyncOutbox s)"
    then obtain r where "r \<in> set (asyncOutbox s)" "position r = p0" by auto
    with max_position_fresh [of r "asyncOutbox s" 0] show False by (simp add: p0_def)
  qed
  have none: "thrown p0 (calls s) = 0"
  proof -
    have "\<forall>c \<in> set (calls s). env_position (fst c) \<noteq> p0"
      using la fresh by (auto simp: list_all_iff)
    then have "filter (\<lambda>(e, returned, w). env_position e = p0 \<and> returned = False) (calls s) = []"
      by (auto simp: filter_empty_conv)
    then show ?thesis by (simp add: thrown_def)
  qed
  show ?thesis
    unfolding async_invariant_def
    using d fp cr la np fresh none
    by (auto simp: insertAsync_def p0_def failures_persisted_def failures_def list_all_iff)
qed

lemma run_invariant:
  assumes "sql_reliable env" "async_invariant s"
  shows "async_invariant (async_run env actions s)"
  using assms(2) unfolding async_run_def
proof (induction actions arbitrary: s)
  case Nil
  then show ?case by simp
next
  case (Cons a actions)
  have "async_invariant (async_step env a s)"
  proof (cases a)
    case Cycle
    with Cons.prems assms(1) show ?thesis by (simp add: cycle_invariant)
  next
    case (Insert c mid mt payload t)
    with Cons.prems show ?thesis by (simp add: insert_invariant)
  qed
  with Cons.IH show ?case by simp
qed

lemma initial_invariant: "async_invariant (async_initial w)"
  by (simp add: async_invariant_def async_initial_def failures_persisted_def
        counts_redeliveries_def)




lemma polling_example_pending:
  "map position (pendingMessages (asyncOutbox polling_example)) = [3, 1]"
  by (simp add: pendingMessages_def polling_example_def)


text \<open>
  Claim C10. The handle returned by \<open>start()\<close> never reaches the method \<open>stop()\<close>:
  whatever the global scope binds to \<open>stop\<close>, the consumer's timer, \<open>_intervalId\<close> and
  \<open>_started\<close> are as before the call.
\<close>

lemma stop_handle_frame:
  "intervals (snd (stop_handle global_stop s)) = intervals s
 \<and> intervalId (snd (stop_handle global_stop s)) = intervalId s
 \<and> started (snd (stop_handle global_stop s)) = started s
 \<and> asyncOutbox (snd (stop_handle global_stop s)) = asyncOutbox s"
  by (simp add: stop_handle_def split: option.splits prod.splits)

text \<open>
  In Node.js, on the example table: the consumer starts, the handle throws a
  ReferenceError, the timer is still registered, and its next firing runs a cycle that
  calls the publish callback twice.
\<close>

theorem stop_handle_keeps_polling:
  "(case async_start None unstarted_example of
      Inl e \<Rightarrow> False
    | Inr s \<Rightarrow>
        fst (stop_handle None s) = Some (ReferenceError ''stop is not defined'')
      \<and> intervalId (snd (stop_handle None s)) = Some 1
      \<and> intervals (snd (stop_handle None s)) = [(1, 15000)]
      \<and> started (snd (stop_handle None s))
      \<and> length (calls (fire (failing_first 0) 1 (snd (stop_handle None s)))) = 2)"
  by (simp add: async_start_def startPolling_def setInterval_def checkInterval_def
        unstarted_example_def polling_example_def stop_handle_def fire_def
        processUndeliveredMessages_def pendingMessages_def failing_first_def Let_def)

text \<open>The method \<open>stop()\<close> itself clears the interval: the timer it had registered is gone,
  and a firing of that timer, were it still to come, runs no cycle.\<close>

theorem async_stop_clears_interval:
  assumes "intervalId s = Some i"
  shows "intervalId (async_stop s) = None
       \<and> started (async_stop s) = False
       \<and> i \<notin> fst ` set (intervals (async_stop s))
       \<and> fire env i (async_stop s) = async_stop s"
  using assms by (auto simp: async_stop_def clearInterval_def fire_def)

theorem async_stop_clears_interval_witness:
  "intervalId polling_example = Some 1
 \<and> intervals (async_stop polling_example) = []
 \<and> calls (fire (failing_first 0) 1 (async_stop polling_example)) = []"
  using async_stop_clears_interval [of polling_example 1 "failing_first 0"]
  by (simp add: polling_example_def async_stop_def clearInterval_def)

end
